theory Spec2Isabelle
  imports
    Complex_Main
    "HOL-Library.Multiset"
    "HOL-Library.Sublist"
    "HOL-Library.Char_ord"
    "HOL-Library.List_Lexorder"
begin

section \<open>Resume parser and job matching\<close>

text \<open>
  The program is \<^verbatim>\<open>src/main.py\<close>: a vocabulary loader (\<^verbatim>\<open>load_skill_set\<close>), two
  parsers built on regular expressions (\<^verbatim>\<open>parse_resume\<close>,
  \<^verbatim>\<open>parse_job_description\<close>) and a matcher (\<^verbatim>\<open>match_candidates\<close>).

  Text is a \<^typ>\<open>string\<close>; a \<^typ>\<open>char\<close> stands for the code point of the same
  number. The character classes and case mappings below are those of Python's
  \<^verbatim>\<open>str\<close> and \<^verbatim>\<open>re\<close> on ASCII text (code points below 128), which is the
  range the model covers; a code point from 128 on is left unchanged by the case
  mappings and belongs to no class. Python differs there: its word class, its
  whitespace and its case mappings are those of Unicode (\<^verbatim>\<open>\w\<close> holds of an
  accented letter, \<^verbatim>\<open>str.strip()\<close> removes a no-break space, \<^verbatim>\<open>str.lower()\<close> and
  \<^verbatim>\<open>str.title()\<close> map accented letters). So \<open>is_word\<close>, \<open>is_space\<close>, \<open>str_lower\<close>,
  \<open>str_title\<close> and \<open>str_strip\<close> are those of the program on ASCII text only, and a
  property that depends on them for arbitrary text is stated for ASCII text.
\<close>

subsection \<open>Characters and the string methods the program calls\<close>

definition is_ascii :: "char \<Rightarrow> bool" where
  "is_ascii c = (c < CHR 0x80)"

definition is_upper :: "char \<Rightarrow> bool" where
  "is_upper c = (CHR ''A'' \<le> c \<and> c \<le> CHR ''Z'')"

definition is_lower :: "char \<Rightarrow> bool" where
  "is_lower c = (CHR ''a'' \<le> c \<and> c \<le> CHR ''z'')"

text \<open>\<^verbatim>\<open>\d\<close>, \<^verbatim>\<open>\w\<close> and \<^verbatim>\<open>\s\<close> of a \<^verbatim>\<open>str\<close> pattern.\<close>

definition is_digit :: "char \<Rightarrow> bool" where
  "is_digit c = (CHR ''0'' \<le> c \<and> c \<le> CHR ''9'')"

definition is_word :: "char \<Rightarrow> bool" where
  "is_word c = (is_upper c \<or> is_lower c \<or> is_digit c \<or> c = CHR ''_'')"

text \<open>
  Whitespace, for \<^verbatim>\<open>\s\<close> and \<^verbatim>\<open>str.strip()\<close>: tab, line feed, vertical tab, form
  feed, carriage return, the separators \<open>0x1C\<close> to \<open>0x1F\<close>, and the space.
\<close>

definition is_space :: "char \<Rightarrow> bool" where
  "is_space c = (c \<in> set [CHR 0x09, CHR 0x0A, CHR 0x0B, CHR 0x0C, CHR 0x0D,
                            CHR 0x1C, CHR 0x1D, CHR 0x1E, CHR 0x1F, CHR 0x20])"

text \<open>The line boundaries of \<^verbatim>\<open>str.splitlines()\<close>; \<open>0x1F\<close> is whitespace but ends no line.\<close>

definition is_linebreak :: "char \<Rightarrow> bool" where
  "is_linebreak c = (c \<in> set [CHR 0x0A, CHR 0x0B, CHR 0x0C, CHR 0x0D,
                                CHR 0x1C, CHR 0x1D, CHR 0x1E])"

definition char_lower :: "char \<Rightarrow> char" where
  "char_lower c = (if is_upper c then char_of (of_char c + (32::nat)) else c)"

definition char_upper :: "char \<Rightarrow> char" where
  "char_upper c = (if is_lower c then char_of (of_char c - (32::nat)) else c)"

text \<open>\<^verbatim>\<open>str.lower()\<close>.\<close>

definition str_lower :: "string \<Rightarrow> string" where
  "str_lower s = map char_lower s"

text \<open>
  \<^verbatim>\<open>str.title()\<close>: a character that follows a cased character is lowercased, any
  other character is uppercased (titlecased), so \<^verbatim>\<open>"sql".title()\<close> is \<^verbatim>\<open>"Sql"\<close> and
  \<^verbatim>\<open>"node.js".title()\<close> is \<^verbatim>\<open>"Node.Js"\<close>.
\<close>

fun title_from :: "bool \<Rightarrow> string \<Rightarrow> string" where
  "title_from previous_is_cased [] = []"
| "title_from previous_is_cased (c # cs) =
     (if previous_is_cased then char_lower c else char_upper c)
       # title_from (is_upper c \<or> is_lower c) cs"

definition str_title :: "string \<Rightarrow> string" where
  "str_title s = title_from False s"

text \<open>\<^verbatim>\<open>str.strip()\<close> with no argument: whitespace is removed at both ends.\<close>

definition str_strip :: "string \<Rightarrow> string" where
  "str_strip s = rev (dropWhile is_space (rev (dropWhile is_space s)))"

text \<open>
  \<^verbatim>\<open>str.splitlines()\<close>: the text is cut at every line boundary, \<^verbatim>\<open>"\r\n"\<close> counting
  as one; the boundaries are dropped, and a boundary at the very end opens no further
  line. \<open>cur\<close> is the line being read.
\<close>

fun lines_from :: "string \<Rightarrow> string \<Rightarrow> string list" where
  "lines_from cur [] = (if cur = [] then [] else [cur])"
| "lines_from cur (c # cs) =
     (if c = CHR 0x0D \<and> cs \<noteq> [] \<and> hd cs = CHR 0x0A then cur # lines_from [] (tl cs)
      else if is_linebreak c then cur # lines_from [] cs
      else lines_from (cur @ [c]) cs)"

definition splitlines :: "string \<Rightarrow> string list" where
  "splitlines s = lines_from [] s"

subsection \<open>The vocabulary loader\<close>

text \<open>
  \<^verbatim>\<open>
  def load_skill_set() -> List[str]:
      skills_file = os.path.join(os.path.dirname(__file__), "skills.txt")
      skills: List[str] = []
      try:
          with open(skills_file, "r", encoding="utf-8") as f:
              for line in f:
                  skill = line.strip()
                  if skill:
                      skills.append(skill.lower())
      except Exception:
          pass
      return skills
  \<close>
  The file is what the environment does when the program opens and reads it: either
  \<^verbatim>\<open>open\<close> raises, or the iteration over the file yields lines until the file ends
  or a read raises (an I/O error, or a decoding error at a later chunk of the file).
  The list \<^verbatim>\<open>skills\<close> is created before the \<^verbatim>\<open>try\<close> and returned after it, so
  what was appended before an exception stays in it. The result is a sum so that an
  exception leaving the function would be a value \<open>Inl\<close>.
\<close>

datatype py_error = FileNotFoundError | OSError | UnicodeDecodeError | AttributeError

datatype read_event = Line string | ReadError py_error

datatype skills_file = CannotOpen py_error | Opened "read_event list"

text \<open>The \<^verbatim>\<open>for\<close> loop: the list built so far, and the exception that ended it, if any.\<close>

fun read_loop :: "read_event list \<Rightarrow> string list \<Rightarrow> string list \<times> py_error option" where
  "read_loop [] skills = (skills, None)"
| "read_loop (Line line # rest) skills =
     (let skill = str_strip line in
      if skill \<noteq> [] then read_loop rest (skills @ [str_lower skill])
      else read_loop rest skills)"
| "read_loop (ReadError e # rest) skills = (skills, Some e)"

text \<open>
  Every constructor of \<^typ>\<open>py_error\<close> is a subclass of \<^verbatim>\<open>Exception\<close>, so the
  handler \<^verbatim>\<open>except Exception: pass\<close> catches whatever \<^verbatim>\<open>open\<close> or the loop raised.
\<close>

definition load_skill_set :: "skills_file \<Rightarrow> py_error + string list" where
  "load_skill_set skills_file =
     (let skills = [] in
      case skills_file of
        CannotOpen e \<Rightarrow> Inr skills
      | Opened events \<Rightarrow>
          (case read_loop events skills of (skills', raised) \<Rightarrow> Inr skills'))"

subsection \<open>Regular expressions\<close>

text \<open>
  The patterns of the program as syntax trees, and \<^verbatim>\<open>re.search\<close> as a backtracking
  matcher over them. An \<open>atom\<close> is one item of a character class; \<open>LitI\<close> is a
  literal under the flag \<^verbatim>\<open>(?i)\<close>, and \<open>AnyChar\<close> is \<^verbatim>\<open>.\<close> under \<^verbatim>\<open>re.DOTALL\<close>.
\<close>

datatype atom = Lit char | LitI char | Range char char | Digit | Space | AnyChar

fun atom_matches :: "atom \<Rightarrow> char \<Rightarrow> bool" where
  "atom_matches (Lit d) c = (c = d)"
| "atom_matches (LitI d) c = (char_lower c = char_lower d)"
| "atom_matches (Range lo hi) c = (lo \<le> c \<and> c \<le> hi)"
| "atom_matches Digit c = is_digit c"
| "atom_matches Space c = is_space c"
| "atom_matches AnyChar c = True"

definition class_matches :: "atom list \<Rightarrow> char \<Rightarrow> bool" where
  "class_matches as c = list_ex (\<lambda>a. atom_matches a c) as"

text \<open>
  \<open>Chr as\<close> is one character of the class \<open>as\<close>; \<open>Rep as lo hi\<close> is the class under a
  greedy quantifier (\<^verbatim>\<open>+\<close> is \<open>Rep as 1 None\<close>, \<^verbatim>\<open>?\<close> is \<open>Rep as 0 (Some 1)\<close>,
  \<^verbatim>\<open>{2,}\<close> is \<open>Rep as 2 None\<close>, \<^verbatim>\<open>{3}\<close> is \<open>Rep as 3 (Some 3)\<close>); \<open>Opt r\<close> is a
  group under \<^verbatim>\<open>?\<close>; \<open>Bnd\<close> is \<^verbatim>\<open>\b\<close>; \<open>Grp n r\<close> is the capturing group number \<open>n\<close>.
  The program's patterns quantify character classes and one group only.
\<close>

datatype rx =
    Eps
  | Chr "atom list"
  | Rep "atom list" nat "nat option"
  | Seq rx rx
  | Alt rx rx
  | Opt rx
  | Bnd
  | Grp nat rx

text \<open>
  A matcher state: the character before the current position (none at the start of
  the text), the text from the current position on, and the groups captured so far.
\<close>

type_synonym mstate = "char option \<times> string \<times> (nat \<times> string) list"

text \<open>
  A quantified class, greedy: one more character is taken when the class and the upper
  bound allow it, and only then is stopping here tried, when the lower bound is met.
  The result lists the positions in the order backtracking visits them.
\<close>

fun rep_class :: "atom list \<Rightarrow> nat \<Rightarrow> nat option \<Rightarrow> char option \<Rightarrow> string \<Rightarrow> (char option \<times> string) list" where
  "rep_class as lo hi prev [] = (if lo = 0 then [(prev, [])] else [])"
| "rep_class as lo hi prev (c # cs) =
     (if class_matches as c \<and> hi \<noteq> Some 0
      then rep_class as (lo - 1) (map_option (\<lambda>h. h - 1) hi) (Some c) cs else [])
     @ (if lo = 0 then [(prev, c # cs)] else [])"

text \<open>
  \<^verbatim>\<open>\b\<close>: exactly one of the character before and the character after the position is
  a word character; the start and the end of the text count as non-word.
\<close>

definition at_boundary :: "char option \<Rightarrow> string \<Rightarrow> bool" where
  "at_boundary prev s =
     ((case prev of None \<Rightarrow> False | Some c \<Rightarrow> is_word c)
        \<noteq> (case s of [] \<Rightarrow> False | c # cs \<Rightarrow> is_word c))"

text \<open>
  All the ways the pattern matches from a state, in backtracking order: the first
  alternative before the second, the longer repetition before the shorter, the group
  under \<^verbatim>\<open>?\<close> before its omission. \<^verbatim>\<open>re\<close> takes the first.
\<close>

fun rx_match :: "rx \<Rightarrow> mstate \<Rightarrow> mstate list" where
  "rx_match Eps st = [st]"
| "rx_match (Chr as) (prev, s, caps) =
     (case s of [] \<Rightarrow> []
      | c # cs \<Rightarrow> if class_matches as c then [(Some c, cs, caps)] else [])"
| "rx_match (Rep as lo hi) (prev, s, caps) =
     map (\<lambda>(p, r). (p, r, caps)) (rep_class as lo hi prev s)"
| "rx_match (Seq a b) st = concat (map (rx_match b) (rx_match a st))"
| "rx_match (Alt a b) st = rx_match a st @ rx_match b st"
| "rx_match (Opt a) st = rx_match a st @ [st]"
| "rx_match Bnd (prev, s, caps) = (if at_boundary prev s then [(prev, s, caps)] else [])"
| "rx_match (Grp n a) (prev, s, caps) =
     map (\<lambda>(p, r, caps'). (p, r, (n, take (length s - length r) s) # caps'))
       (rx_match a (prev, s, caps))"

text \<open>
  A match object: \<^verbatim>\<open>group(0)\<close> is \<open>whole\<close>; \<^verbatim>\<open>group(n)\<close> is \<^verbatim>\<open>None\<close> for a group
  that took no part in the match.
\<close>

record match =
  whole :: string
  groups :: "(nat \<times> string) list"

definition group :: "match \<Rightarrow> nat \<Rightarrow> string option" where
  "group m n = (if n = 0 then Some (whole m) else map_of (groups m) n)"

text \<open>
  \<^verbatim>\<open>re.search\<close>: the start positions are tried from left to right, the end of the text
  included, and the first position with a match gives the result.
\<close>

fun search_from :: "rx \<Rightarrow> char option \<Rightarrow> string \<Rightarrow> match option" where
  "search_from r prev s =
     (case rx_match r (prev, s, []) of
        (p, rest, caps) # others \<Rightarrow>
          Some \<lparr>whole = take (length s - length rest) s, groups = caps\<rparr>
      | [] \<Rightarrow> (case s of [] \<Rightarrow> None | c # cs \<Rightarrow> search_from r (Some c) cs))"

definition re_search :: "rx \<Rightarrow> string \<Rightarrow> match option" where
  "re_search r s = search_from r None s"

definition seqs :: "rx list \<Rightarrow> rx" where
  "seqs rs = foldr Seq rs Eps"

definition lit :: "string \<Rightarrow> rx" where
  "lit s = seqs (map (\<lambda>c. Chr [Lit c]) s)"

definition lit_i :: "string \<Rightarrow> rx" where
  "lit_i s = seqs (map (\<lambda>c. Chr [LitI c]) s)"

text \<open>\<^verbatim>\<open>[A-Za-z0-9._%+-]+@[A-Za-z0-9.-]+\.[A-Za-z]{2,}\<close>\<close>

definition email_rx :: rx where
  "email_rx = seqs
     [Rep [Range CHR ''A'' CHR ''Z'', Range CHR ''a'' CHR ''z'', Range CHR ''0'' CHR ''9'',
           Lit CHR ''.'', Lit CHR ''_'', Lit CHR ''%'', Lit CHR ''+'', Lit CHR ''-''] 1 None,
      Chr [Lit CHR ''@''],
      Rep [Range CHR ''A'' CHR ''Z'', Range CHR ''a'' CHR ''z'', Range CHR ''0'' CHR ''9'',
           Lit CHR ''.'', Lit CHR ''-''] 1 None,
      Chr [Lit CHR ''.''],
      Rep [Range CHR ''A'' CHR ''Z'', Range CHR ''a'' CHR ''z''] 2 None]"

text \<open>\<^verbatim>\<open>(\+?\d{1,3}[\s.-]?)?(\(?\d{3}\)?[\s.-]?\d{3}[\s.-]?\d{4})\<close>\<close>

definition phone_rx :: rx where
  "phone_rx = seqs
     [Opt (Grp 1 (seqs
        [Rep [Lit CHR ''+''] 0 (Some 1),
         Rep [Digit] 1 (Some 3),
         Rep [Space, Lit CHR ''.'', Lit CHR ''-''] 0 (Some 1)])),
      Grp 2 (seqs
        [Rep [Lit CHR ''(''] 0 (Some 1),
         Rep [Digit] 3 (Some 3),
         Rep [Lit CHR '')''] 0 (Some 1),
         Rep [Space, Lit CHR ''.'', Lit CHR ''-''] 0 (Some 1),
         Rep [Digit] 3 (Some 3),
         Rep [Space, Lit CHR ''.'', Lit CHR ''-''] 0 (Some 1),
         Rep [Digit] 4 (Some 4)])]"

text \<open>\<^verbatim>\<open>(?i)(experience|work experience)(.*)\<close> with \<^verbatim>\<open>re.DOTALL\<close>\<close>

definition experience_rx :: rx where
  "experience_rx = seqs
     [Grp 1 (Alt (lit_i ''experience'') (lit_i ''work experience'')),
      Grp 2 (Rep [AnyChar] 0 None)]"

text \<open>
  \<^verbatim>\<open>r"\b" + re.escape(skill) + r"\b"\<close>: the escaped skill matches the skill character
  for character.
\<close>

definition skill_rx :: "string \<Rightarrow> rx" where
  "skill_rx skill = seqs [Bnd, lit skill, Bnd]"

subsection \<open>The records\<close>

text \<open>
  The parsers return Python dictionaries with a fixed set of keys; they are records
  here. \<^verbatim>\<open>upload_resume\<close> and \<^verbatim>\<open>upload_job\<close> add the key \<^verbatim>\<open>filename\<close>
  afterwards, which no function modelled here reads. Every dictionary in the global
  lists \<^verbatim>\<open>candidates\<close> and \<^verbatim>\<open>jobs\<close> is built by a parser, so the keys
  \<^verbatim>\<open>skills\<close> and \<^verbatim>\<open>skills_required\<close> are always present and the defaults of
  \<^verbatim>\<open>.get(key, [])\<close> in \<^verbatim>\<open>match_candidates\<close> are never taken.
\<close>

record candidate =
  name :: string
  email :: string
  phone :: string
  skills :: "string list"
  experience :: string

record job =
  title :: string
  skills_required :: "string list"
  description :: string

subsection \<open>The parsers\<close>

text \<open>
  The scan both parsers make over the vocabulary:
  \<^verbatim>\<open>
      for skill in SKILLS_SET:
          if re.search(r"\b" + re.escape(skill) + r"\b", lower_text):
              skills_found.add(skill.title())
  \<close>
  The global \<^verbatim>\<open>SKILLS_SET\<close>, which the program sets to \<^verbatim>\<open>load_skill_set()\<close> at
  start, is a parameter of the parsers.
\<close>

fun find_skills :: "string list \<Rightarrow> string \<Rightarrow> string set \<Rightarrow> string set" where
  "find_skills [] lower_text found = found"
| "find_skills (skill # rest) lower_text found =
     (if re_search (skill_rx skill) lower_text \<noteq> None
      then find_skills rest lower_text (insert (str_title skill) found)
      else find_skills rest lower_text found)"

text \<open>\<^verbatim>\<open>[line.strip() for line in text.splitlines() if line.strip()]\<close>\<close>

definition nonblank_lines :: "string \<Rightarrow> string list" where
  "nonblank_lines text =
     map str_strip (filter (\<lambda>line. str_strip line \<noteq> []) (splitlines text))"

text \<open>
  \<^verbatim>\<open>
  def parse_resume(text):
      lines = [line.strip() for line in text.splitlines() if line.strip()]
      name = lines[0] if lines else ""
      email_match = re.search(r"[A-Za-z0-9._%+-]+@[A-Za-z0-9.-]+\.[A-Za-z]{2,}", text)
      email = email_match.group(0) if email_match else ""
      phone_match = re.search(r"(\+?\d{1,3}[\s.-]?)?(\(?\d{3}\)?[\s.-]?\d{3}[\s.-]?\d{4})", text)
      phone = phone_match.group(0) if phone_match else ""
      skills_found = set()
      lower_text = text.lower()
      for skill in SKILLS_SET: ...
      experience = ""
      exp_match = re.search(r"(?i)(experience|work experience)(.*)" , text, re.DOTALL)
      if exp_match:
          experience = exp_match.group(2).strip()
          experience = experience[:500]
      return {"name": name, "email": email, "phone": phone,
              "skills": sorted(list(skills_found)), "experience": experience}
  \<close>
  \<^verbatim>\<open>exp_match.group(2)\<close> would be \<^verbatim>\<open>None\<close> for a group that took no part in the
  match, and \<^verbatim>\<open>.strip()\<close> on it would raise \<^verbatim>\<open>AttributeError\<close>; that is the only
  place where the function could raise, and the result is a sum for it.
  \<^verbatim>\<open>sorted(list(skills_found))\<close> is the set in ascending order of its strings, which
  Python compares code point by code point.
\<close>

definition parse_resume :: "string list \<Rightarrow> string \<Rightarrow> py_error + candidate" where
  "parse_resume SKILLS_SET text =
     (let lines = nonblank_lines text;
          name = (if lines \<noteq> [] then hd lines else []);
          email_match = re_search email_rx text;
          email = (case email_match of Some m \<Rightarrow> whole m | None \<Rightarrow> []);
          phone_match = re_search phone_rx text;
          phone = (case phone_match of Some m \<Rightarrow> whole m | None \<Rightarrow> []);
          lower_text = str_lower text;
          skills_found = find_skills SKILLS_SET lower_text {};
          exp_match = re_search experience_rx text
      in case exp_match of
           None \<Rightarrow>
             Inr \<lparr>name = name, email = email, phone = phone,
                  skills = sorted_list_of_set skills_found, experience = []\<rparr>
         | Some m \<Rightarrow>
             (case group m 2 of
                None \<Rightarrow> Inl AttributeError
              | Some g \<Rightarrow>
                  Inr \<lparr>name = name, email = email, phone = phone,
                       skills = sorted_list_of_set skills_found,
                       experience = take 500 (str_strip g)\<rparr>))"

text \<open>
  \<^verbatim>\<open>
  def parse_job_description(text):
      lines = [line.strip() for line in text.splitlines() if line.strip()]
      title = lines[0] if lines else "Untitled Job"
      lower_text = text.lower()
      required_skills = set()
      for skill in SKILLS_SET: ...
      return {"title": title, "skills_required": sorted(list(required_skills)),
              "description": text}
  \<close>
\<close>

definition parse_job_description :: "string list \<Rightarrow> string \<Rightarrow> job" where
  "parse_job_description SKILLS_SET text =
     (let lines = nonblank_lines text;
          title = (if lines \<noteq> [] then hd lines else ''Untitled Job'');
          lower_text = str_lower text;
          required_skills = find_skills SKILLS_SET lower_text {}
      in \<lparr>title = title, skills_required = sorted_list_of_set required_skills,
           description = text\<rparr>)"

subsection \<open>The matcher\<close>

text \<open>
  \<^verbatim>\<open>
  def match_candidates(job):
      matches = []
      req_skills = set(job.get("skills_required", []))
      if not req_skills:
          return []
      for idx, candidate in enumerate(candidates):
          cand_skills = set(candidate.get("skills", []))
          if not cand_skills:
              score = 0.0
          else:
              intersect = req_skills.intersection(cand_skills)
              score = len(intersect) / len(req_skills)
          matches.append((idx, score))
      matches.sort(key=lambda x: x[1], reverse=True)
      return matches
  \<close>
  The global list \<^verbatim>\<open>candidates\<close> is a parameter. The score is the quotient of two
  set sizes; it is the exact rational here. Python rounds the quotient to the nearest
  double, which is monotone, keeps \<open>0\<close> and \<open>1\<close> exact, and keeps two quotients
  \<open>k / n\<close> and \<open>k' / n\<close> with \<open>k < k' \<le> n\<close> apart for every \<open>n\<close> below \<open>2 ^ 53\<close>; so
  the comparisons the sort makes and the tests against \<open>0.0\<close> and \<open>1.0\<close> come out
  the same on the rationals.
\<close>

definition score_of :: "string set \<Rightarrow> candidate \<Rightarrow> rat" where
  "score_of req_skills cand =
     (let cand_skills = set (skills cand) in
      if cand_skills = {} then 0
      else
        (let intersect = req_skills \<inter> cand_skills in
         of_nat (card intersect) / of_nat (card req_skills)))"

text \<open>The \<^verbatim>\<open>for\<close> loop over \<^verbatim>\<open>enumerate(candidates)\<close>, appending to \<^verbatim>\<open>matches\<close>.\<close>

fun score_loop :: "string set \<Rightarrow> nat \<Rightarrow> candidate list \<Rightarrow> (nat \<times> rat) list \<Rightarrow> (nat \<times> rat) list" where
  "score_loop req_skills idx [] matches = matches"
| "score_loop req_skills idx (cand # rest) matches =
     score_loop req_skills (Suc idx) rest (matches @ [(idx, score_of req_skills cand)])"

text \<open>
  \<^verbatim>\<open>list.sort(key=..., reverse=True)\<close>: a stable sort in which elements with equal
  keys keep their original order also under \<^verbatim>\<open>reverse\<close>. CPython reverses the
  list, sorts it stably in ascending key order and reverses the result; the model does
  the same, with insertion sort (\<^const>\<open>sort_key\<close>) as the stable sort.
\<close>

definition sort_reverse :: "('a \<Rightarrow> 'k::linorder) \<Rightarrow> 'a list \<Rightarrow> 'a list" where
  "sort_reverse key xs = rev (sort_key key (rev xs))"

definition match_candidates :: "candidate list \<Rightarrow> job \<Rightarrow> (nat \<times> rat) list" where
  "match_candidates candidates job =
     (let req_skills = set (skills_required job) in
      if req_skills = {} then []
      else sort_reverse snd (score_loop req_skills 0 candidates []))"

subsection \<open>Notions the properties are stated with\<close>

text \<open>
  A whole-word, case-insensitive occurrence of a (lowercase) word in a text: the text
  holds the word in some mix of cases, with no word character right before it and none
  right after it.
\<close>

definition whole_word_occurrence :: "string \<Rightarrow> string \<Rightarrow> bool" where
  "whole_word_occurrence word text =
     (\<exists>pre w post. text = pre @ w @ post \<and> str_lower w = word \<and>
        (pre = [] \<or> \<not> is_word (last pre)) \<and> (post = [] \<or> \<not> is_word (hd post)))"

text \<open>The character before the position that follows \<open>pre\<close>, for a matcher that started after \<open>prev\<close>.\<close>

definition word_before :: "char option \<Rightarrow> string \<Rightarrow> char option" where
  "word_before prev pre = (if pre = [] then prev else Some (last pre))"

text \<open>Inputs on which the properties are run: a resume, a job and four candidates.\<close>

definition scenario_resume :: string where
  "scenario_resume =
     ''Jane Doe\<newline>jane@x.com\<newline>555-123-4567\<newline>Skills: Python, SQL, Excel\<newline>Experience: built pipelines for 3 years.''"

definition example_job :: job where
  "example_job =
     \<lparr>title = ''Analyst'', skills_required = [''Python'', ''Sql''], description = ''Analyst''\<rparr>"

definition example_candidates :: "candidate list" where
  "example_candidates =
     [\<lparr>name = ''Bob'', email = [], phone = [], skills = [''Python''], experience = []\<rparr>,
      \<lparr>name = ''Cy'', email = [], phone = [], skills = [], experience = []\<rparr>,
      \<lparr>name = ''Ann'', email = [], phone = [],
         skills = [''Excel'', ''Python'', ''Sql''], experience = []\<rparr>,
      \<lparr>name = ''Dee'', email = [], phone = [], skills = [''Excel'', ''Sql''], experience = []\<rparr>]"

section \<open>Properties of the vocabulary loader\<close>

lemma load_skill_set_returns: "\<exists>vocabulary. load_skill_set f = Inr vocabulary"
  by (cases f) (auto simp: load_skill_set_def split: prod.splits)

lemma read_loop_lines:
  "read_loop (map Line ls @ rest) acc =
     read_loop rest (acc @ map str_lower (filter (\<lambda>s. s \<noteq> []) (map str_strip ls)))"
  by (induction ls arbitrary: acc) (simp_all add: Let_def)

text \<open>
  C6, as amended: \<open>load_skill_set\<close> never propagates an exception. When the file cannot
  be opened it returns the empty list. When the lines \<open>ls\<close> are read and the file ends,
  or the next read raises, it returns the stripped, non-blank, lowercased lines of
  \<open>ls\<close> in their order: after a read error, the entries of the lines read before the
  error, which is the empty list only when none of these lines has an entry.
\<close>

theorem load_skill_set_absorbs_failures:
  "(\<exists>vocabulary. load_skill_set f = Inr vocabulary) \<and>
   load_skill_set (CannotOpen e) = Inr [] \<and>
   load_skill_set (Opened (map Line ls))
     = Inr (map str_lower (filter (\<lambda>s. s \<noteq> []) (map str_strip ls))) \<and>
   load_skill_set (Opened (map Line ls @ ReadError e # rest))
     = Inr (map str_lower (filter (\<lambda>s. s \<noteq> []) (map str_strip ls)))"
proof -
  have 1: "\<exists>vocabulary. load_skill_set f = Inr vocabulary"
    by (rule load_skill_set_returns)
  have 2: "load_skill_set (CannotOpen e) = Inr []"
    by (simp add: load_skill_set_def)
  have 3: "load_skill_set (Opened (map Line ls))
     = Inr (map str_lower (filter (\<lambda>s. s \<noteq> []) (map str_strip ls)))"
    using read_loop_lines [of ls "[]" "[]"] by (simp add: load_skill_set_def)
  have 4: "load_skill_set (Opened (map Line ls @ ReadError e # rest))
     = Inr (map str_lower (filter (\<lambda>s. s \<noteq> []) (map str_strip ls)))"
    by (simp add: load_skill_set_def read_loop_lines)
  from 1 2 3 4 show ?thesis by blast
qed

text \<open>
  C6 as stated fails: a read error after the line \<^verbatim>\<open>python\<close> leaves the vocabulary
  \<^verbatim>\<open>["python"]\<close>, which is not empty.
\<close>

theorem load_skill_set_partial_counterexample:
  "load_skill_set (Opened [Line ''python\<newline>'', ReadError OSError]) = Inr [''python'']
   \<and> load_skill_set (Opened [Line ''python\<newline>'', ReadError OSError]) \<noteq> Inr []"
  by code_simp

section \<open>Properties of the parsers\<close>

subsection \<open>The skills found are those of the vocabulary that match\<close>

lemma finite_find_skills: "finite found \<Longrightarrow> finite (find_skills S lt found)"
  by (induction S arbitrary: found) simp_all

lemma find_skills_eq:
  "find_skills S lt found =
     found \<union> str_title ` {s \<in> set S. re_search (skill_rx s) lt \<noteq> None}"
  by (induction S arbitrary: found) auto

lemma set_found_skills:
  "set (sorted_list_of_set (find_skills S lt {})) =
     str_title ` {s \<in> set S. re_search (skill_rx s) lt \<noteq> None}"
  by (simp add: finite_find_skills find_skills_eq)

subsection \<open>\<open>parse_resume\<close> never raises\<close>

lemma rx_match_group_last:
  "st' \<in> set (rx_match (Seq a (Seq (Grp n b) Eps)) st) \<Longrightarrow> map_of (snd (snd st')) n \<noteq> None"
  by (cases st) (auto split: prod.splits)

lemma search_from_Some:
  "search_from r prev s = Some m \<Longrightarrow>
   \<exists>p t st'. st' \<in> set (rx_match r (p, t, [])) \<and> groups m = snd (snd st')"
proof (induction r prev s rule: search_from.induct)
  case (1 r prev s)
  show ?case
  proof (cases "rx_match r (prev, s, [])")
    case Nil
    with "1.prems" obtain c cs where s: "s = c # cs" and "search_from r (Some c) cs = Some m"
      by (cases s) (simp_all)
    with Nil "1.IH" show ?thesis by blast
  next
    case (Cons st' others)
    obtain p rest caps where st': "st' = (p, rest, caps)" by (cases st')
    with Cons "1.prems" have "groups m = caps" by auto
    moreover have "st' \<in> set (rx_match r (prev, s, []))" using Cons by simp
    ultimately show ?thesis using st' by fastforce
  qed
qed

lemma experience_group_2:
  assumes "re_search experience_rx text = Some m"
  shows "group m 2 \<noteq> None"
proof -
  from assms obtain p t st' where
    st': "st' \<in> set (rx_match experience_rx (p, t, []))" and g: "groups m = snd (snd st')"
    unfolding re_search_def by (blast dest: search_from_Some)
  note st'
  moreover obtain a b where "experience_rx = Seq a (Seq (Grp 2 b) Eps)"
    by (simp add: experience_rx_def seqs_def)
  ultimately have "map_of (snd (snd st')) 2 \<noteq> None"
    by (metis rx_match_group_last)
  with g show ?thesis by (simp add: group_def)
qed

lemma parse_resume_total: "\<exists>r. parse_resume S D = Inr r"
proof (cases "re_search experience_rx D")
  case None
  then show ?thesis by (simp add: parse_resume_def Let_def)
next
  case (Some m)
  then obtain g where "group m 2 = Some g" using experience_group_2 by blast
  with Some show ?thesis by (simp add: parse_resume_def Let_def)
qed

lemma parse_resume_skills:
  "parse_resume S D = Inr r \<Longrightarrow>
   skills r = sorted_list_of_set (find_skills S (str_lower D) {})"
  by (auto simp: parse_resume_def Let_def split: option.splits)

text \<open>
  C1: for every vocabulary \<open>S\<close> and every text \<open>D\<close>, \<open>parse_resume\<close> returns a record,
  and the elements of its \<open>skills\<close> list, like those of the \<open>skills_required\<close> list of
  \<open>parse_job_description\<close>, are the title-cased forms of the members of \<open>S\<close> whose
  pattern matches the lowercased text; so each is the title-cased form of a member of
  \<open>S\<close>, and nothing that does not come from \<open>S\<close> is in either list.
\<close>

theorem parsed_skills_from_vocabulary:
  "(\<exists>r. parse_resume S D = Inr r \<and>
        set (skills r) = str_title ` {s \<in> set S. re_search (skill_rx s) (str_lower D) \<noteq> None} \<and>
        set (skills r) \<subseteq> str_title ` set S) \<and>
   set (skills_required (parse_job_description S D))
     = str_title ` {s \<in> set S. re_search (skill_rx s) (str_lower D) \<noteq> None} \<and>
   set (skills_required (parse_job_description S D)) \<subseteq> str_title ` set S"
proof -
  obtain r where r: "parse_resume S D = Inr r" using parse_resume_total by blast
  then have "set (skills r) = str_title ` {s \<in> set S. re_search (skill_rx s) (str_lower D) \<noteq> None}"
    by (simp add: parse_resume_skills set_found_skills)
  moreover have "set (skills_required (parse_job_description S D))
     = str_title ` {s \<in> set S. re_search (skill_rx s) (str_lower D) \<noteq> None}"
    by (simp add: parse_job_description_def Let_def set_found_skills)
  ultimately show ?thesis using r by auto
qed

subsection \<open>The empty text\<close>

lemma skill_never_in_empty_text: "re_search (skill_rx skill) [] = None"
  by (simp add: re_search_def skill_rx_def seqs_def at_boundary_def)

lemma find_skills_empty_text: "find_skills S [] found = found"
  by (induction S arbitrary: found) (simp_all add: skill_never_in_empty_text)

lemma email_none_in_empty_text: "re_search email_rx [] = None"
  by (simp add: re_search_def email_rx_def seqs_def)

lemma phone_none_in_empty_text: "re_search phone_rx [] = None"
  by (simp add: re_search_def phone_rx_def seqs_def)

lemma experience_none_in_empty_text: "re_search experience_rx [] = None"
  by (simp add: re_search_def experience_rx_def seqs_def lit_i_def)

text \<open>
  C9: on the empty text \<open>parse_resume\<close> returns (it does not raise) the record whose
  name, email, phone and experience are the empty string and whose skills list is
  empty, whatever the vocabulary is.
\<close>

theorem parse_resume_empty_text:
  "parse_resume S [] = Inr \<lparr>name = [], email = [], phone = [], skills = [], experience = []\<rparr>"
  by (simp add: parse_resume_def Let_def nonblank_lines_def splitlines_def str_lower_def
      find_skills_empty_text email_none_in_empty_text phone_none_in_empty_text
      experience_none_in_empty_text)

subsection \<open>Scenario 1\<close>

lemma scenario_resume_parsed:
  "parse_resume [''python'', ''sql''] scenario_resume
     = Inr \<lparr>name = ''Jane Doe'', email = ''jane@x.com'', phone = ''555-123-4567'',
             skills = [''Python'', ''Sql''],
             experience = '': built pipelines for 3 years.''\<rparr>"
  by code_simp

lemma scenario_vocabulary_loaded:
  "load_skill_set (Opened [Line ''Python\<newline>'', Line ''SQL\<newline>'']) = Inr [''python'', ''sql'']"
  by code_simp

text \<open>
  C7, as amended: the vocabulary file with the lines \<^verbatim>\<open>Python\<close> and \<^verbatim>\<open>SQL\<close> is
  loaded as \<^verbatim>\<open>["python", "sql"]\<close>, and with it the resume text of scenario 1 is parsed
  to name \<^verbatim>\<open>Jane Doe\<close>, email \<^verbatim>\<open>jane@x.com\<close>, phone \<^verbatim>\<open>555-123-4567\<close>, skills
  \<^verbatim>\<open>["Python", "Sql"]\<close> (no \<^verbatim>\<open>Excel\<close>), and the experience
  \<^verbatim>\<open>: built pipelines for 3 years.\<close>, which is what follows the word
  \<^verbatim>\<open>Experience\<close>, colon included.
\<close>

theorem scenario_resume_fields:
  "load_skill_set (Opened [Line ''Python\<newline>'', Line ''SQL\<newline>'']) = Inr [''python'', ''sql'']
   \<and> parse_resume [''python'', ''sql''] scenario_resume
     = Inr \<lparr>name = ''Jane Doe'', email = ''jane@x.com'', phone = ''555-123-4567'',
             skills = [''Python'', ''Sql''],
             experience = '': built pipelines for 3 years.''\<rparr>"
  by (simp add: scenario_resume_parsed scenario_vocabulary_loaded)

text \<open>
  C7 as stated fails: no record returned for the text of scenario 1 has the four fields
  of the claim and an experience that starts with \<^verbatim>\<open>built pipelines\<close>.
\<close>

theorem scenario_resume_experience_counterexample:
  "\<not> (\<exists>r. parse_resume [''python'', ''sql''] scenario_resume = Inr r
        \<and> name r = ''Jane Doe'' \<and> email r = ''jane@x.com'' \<and> phone r = ''555-123-4567''
        \<and> skills r = [''Python'', ''Sql''] \<and> prefix ''built pipelines'' (experience r))"
  by (simp add: scenario_resume_parsed)

subsection \<open>Whole-word detection\<close>

lemma search_from_None_iff:
  "search_from r prev s = None \<longleftrightarrow>
     (\<forall>pre post. s = pre @ post \<longrightarrow> rx_match r (word_before prev pre, post, []) = [])"
proof (induction s arbitrary: prev)
  case Nil
  show ?case by (auto simp: word_before_def split: list.splits)
next
  case (Cons c cs)
  have split: "(\<forall>pre post. c # cs = pre @ post \<longrightarrow> rx_match r (word_before prev pre, post, []) = [])
      \<longleftrightarrow> rx_match r (prev, c # cs, []) = [] \<and>
          (\<forall>pre post. cs = pre @ post \<longrightarrow> rx_match r (word_before (Some c) pre, post, []) = [])"
    (is "?L \<longleftrightarrow> ?A \<and> ?B")
  proof
    assume L: ?L
    have ?A using L [rule_format, of "[]" "c # cs"] by (simp add: word_before_def)
    moreover have ?B
    proof (intro allI impI)
      fix pre post assume "cs = pre @ post"
      then have "c # cs = (c # pre) @ post" by simp
      from L [rule_format, OF this] show "rx_match r (word_before (Some c) pre, post, []) = []"
        by (simp add: word_before_def split: if_splits)
    qed
    ultimately show "?A \<and> ?B" ..
  next
    assume AB: "?A \<and> ?B"
    show ?L
    proof (intro allI impI)
      fix pre post assume eq: "c # cs = pre @ post"
      show "rx_match r (word_before prev pre, post, []) = []"
      proof (cases pre)
        case Nil
        with eq AB show ?thesis by (simp add: word_before_def)
      next
        case (Cons d pre')
        with eq have "cs = pre' @ post" and "d = c" by simp_all
        with AB have "rx_match r (word_before (Some c) pre', post, []) = []" by blast
        with Cons \<open>d = c\<close> show ?thesis by (simp add: word_before_def split: if_splits)
      qed
    qed
  qed
  show ?case
    unfolding split using Cons.IH [of "Some c"]
    by (auto split: list.splits)
qed

lemma of_char_lower:
  "is_upper c \<Longrightarrow> (of_char (char_lower c) :: nat) = of_char c + 32"
  by (simp add: char_lower_def is_upper_def less_eq_char_def)

lemma is_word_char_lower: "is_word (char_lower c) = is_word c"
proof (cases "is_upper c")
  case True
  then have "is_lower (char_lower c)"
    using of_char_lower [OF True] by (simp add: is_lower_def is_upper_def less_eq_char_def)
  with True show ?thesis by (simp add: is_word_def)
next
  case False
  then show ?thesis by (simp add: char_lower_def)
qed

lemma not_upper_if_lower: "is_lower c \<Longrightarrow> \<not> is_upper c"
  by (auto simp: is_lower_def is_upper_def less_eq_char_def)

lemma char_lower_idem: "char_lower (char_lower c) = char_lower c"
proof (cases "is_upper c")
  case True
  then have "is_lower (char_lower c)"
    using of_char_lower [OF True] by (simp add: is_lower_def is_upper_def less_eq_char_def)
  then have "\<not> is_upper (char_lower c)" by (rule not_upper_if_lower)
  then show ?thesis by (simp add: char_lower_def)
next
  case False
  then show ?thesis by (simp add: char_lower_def)
qed

lemma char_lower_upper: "char_lower (char_upper c) = char_lower c"
proof (cases "is_lower c")
  case True
  then have n: "97 \<le> (of_char c :: nat)" "(of_char c :: nat) \<le> 122"
    by (simp_all add: is_lower_def less_eq_char_def)
  then have u: "(of_char (char_upper c) :: nat) = of_char c - 32"
    using True by (simp add: char_upper_def)
  have "65 \<le> (of_char c :: nat) - 32" "(of_char c :: nat) - 32 \<le> 90"
    using n by linarith+
  with u have "is_upper (char_upper c)"
    by (simp add: is_upper_def less_eq_char_def)
  then have "char_lower (char_upper c) = char_of (of_char (char_upper c) + (32::nat))"
    by (simp add: char_lower_def)
  also have "\<dots> = char_of (of_char c :: nat)" using u n by simp
  also have "\<dots> = c" by simp
  also have "\<dots> = char_lower c"
    using not_upper_if_lower [OF True] by (simp add: char_lower_def)
  finally show ?thesis .
next
  case False
  then show ?thesis by (simp add: char_upper_def)
qed

text \<open>Lowercasing undoes title-casing, so title-casing is one-to-one on lowercase strings.\<close>

lemma lower_title_from: "str_lower (title_from b s) = str_lower s"
  by (induction s arbitrary: b) (simp_all add: str_lower_def char_lower_idem char_lower_upper)

lemma lower_title: "str_lower (str_title s) = str_lower s"
  by (simp add: str_title_def lower_title_from)

lemma str_lower_idem: "str_lower (str_lower s) = str_lower s"
  by (simp add: str_lower_def char_lower_idem)

text \<open>What \<open>load_skill_set\<close> returns is a list of non-empty lowercase strings.\<close>

lemma read_loop_lowercase:
  "list_all (\<lambda>s. s \<noteq> [] \<and> str_lower s = s) acc \<Longrightarrow>
   list_all (\<lambda>s. s \<noteq> [] \<and> str_lower s = s) (fst (read_loop events acc))"
proof (induction events arbitrary: acc)
  case Nil
  then show ?case by simp
next
  case (Cons ev events)
  show ?case
  proof (cases ev)
    case (Line line)
    show ?thesis
    proof (cases "str_strip line = []")
      case True
      with Line Cons show ?thesis by simp
    next
      case False
      then have "str_lower (str_strip line) \<noteq> []" by (simp add: str_lower_def)
      with Cons.prems
      have "list_all (\<lambda>s. s \<noteq> [] \<and> str_lower s = s) (acc @ [str_lower (str_strip line)])"
        by (simp add: str_lower_idem)
      from Cons.IH [OF this] Line False show ?thesis by simp
    qed
  next
    case (ReadError e)
    with Cons.prems show ?thesis by simp
  qed
qed

lemma loaded_vocabulary_lowercase:
  assumes "load_skill_set f = Inr V"
  shows "list_all (\<lambda>s. s \<noteq> [] \<and> str_lower s = s) V"
proof (cases f)
  case (CannotOpen e)
  with assms show ?thesis by (simp add: load_skill_set_def)
next
  case (Opened events)
  with assms have "V = fst (read_loop events [])"
    by (simp add: load_skill_set_def split: prod.splits)
  then show ?thesis using read_loop_lowercase [of "[]" events] by simp
qed

lemma lit_Cons: "lit (c # w) = Seq (Chr [Lit c]) (lit w)"
  by (simp add: lit_def seqs_def)

lemma rx_match_lit:
  "rx_match (lit w) (prev, s, caps) =
     (if prefix w s then [(word_before prev w, drop (length w) s, caps)] else [])"
proof (induction w arbitrary: prev s)
  case Nil
  show ?case by (simp add: lit_def seqs_def word_before_def)
next
  case (Cons c w)
  show ?case
  proof (cases s)
    case Nil
    then show ?thesis by (simp add: lit_Cons)
  next
    case (Cons d t)
    then show ?thesis
      by (simp add: lit_Cons Cons.IH class_matches_def word_before_def)
  qed
qed

lemma rx_match_skill:
  "rx_match (skill_rx w) (prev, s, caps) =
     (if at_boundary prev s \<and> prefix w s \<and> at_boundary (word_before prev w) (drop (length w) s)
      then [(word_before prev w, drop (length w) s, caps)] else [])"
  by (simp add: skill_rx_def seqs_def rx_match_lit)

text \<open>
  The pattern of a skill matches somewhere in a text exactly when the text holds the
  skill with a word boundary before it and a word boundary after it.
\<close>

lemma skill_search_iff:
  "re_search (skill_rx w) t \<noteq> None \<longleftrightarrow>
     (\<exists>pre post. t = pre @ w @ post \<and>
        at_boundary (word_before None pre) (w @ post) \<and>
        at_boundary (word_before (word_before None pre) w) post)"
  (is "?L \<longleftrightarrow> ?R")
proof
  assume ?L
  then obtain pre rest where t: "t = pre @ rest"
      and m: "rx_match (skill_rx w) (word_before None pre, rest, []) \<noteq> []"
    unfolding re_search_def search_from_None_iff by blast
  from m have b1: "at_boundary (word_before None pre) rest" and p: "prefix w rest"
      and b2: "at_boundary (word_before (word_before None pre) w) (drop (length w) rest)"
    by (simp_all add: rx_match_skill split: if_splits)
  from p obtain post where rest: "rest = w @ post" by (auto simp: prefix_def)
  with t b1 b2 show ?R by auto
next
  assume ?R
  then obtain pre post where t: "t = pre @ w @ post"
      and b1: "at_boundary (word_before None pre) (w @ post)"
      and b2: "at_boundary (word_before (word_before None pre) w) post"
    by blast
  then have "rx_match (skill_rx w) (word_before None pre, w @ post, []) \<noteq> []"
    by (simp add: rx_match_skill)
  with t show ?L
    unfolding re_search_def search_from_None_iff by blast
qed

lemma go_search_iff:
  "re_search (skill_rx ''go'') t \<noteq> None \<longleftrightarrow>
     (\<exists>pre post. t = pre @ ''go'' @ post \<and>
        (pre = [] \<or> \<not> is_word (last pre)) \<and> (post = [] \<or> \<not> is_word (hd post)))"
proof -
  have g: "is_word CHR ''g''" and o: "is_word CHR ''o''"
    by (simp_all add: is_word_def is_lower_def)
  have b1: "at_boundary (word_before None pre) (''go'' @ post) \<longleftrightarrow> pre = [] \<or> \<not> is_word (last pre)"
    for pre post
    using g by (simp add: at_boundary_def word_before_def)
  have b2: "at_boundary (word_before p ''go'') post \<longleftrightarrow> post = [] \<or> \<not> is_word (hd post)"
    for p post
    using o by (cases post) (simp_all add: at_boundary_def word_before_def)
  show ?thesis
    unfolding skill_search_iff b1 b2 ..
qed

lemma lower_occurrence_iff:
  "(\<exists>pre post. str_lower D = pre @ word @ post \<and>
        (pre = [] \<or> \<not> is_word (last pre)) \<and> (post = [] \<or> \<not> is_word (hd post)))
   \<longleftrightarrow> whole_word_occurrence word D"
  (is "?L \<longleftrightarrow> ?R")
proof
  assume ?L
  then obtain pre post where eq: "map char_lower D = pre @ word @ post"
      and b1: "pre = [] \<or> \<not> is_word (last pre)" and b2: "post = [] \<or> \<not> is_word (hd post)"
    unfolding str_lower_def by blast
  from eq [unfolded map_eq_append_conv]
  obtain as rest where D: "D = as @ rest" and as: "map char_lower as = pre"
      and rest: "map char_lower rest = word @ post"
    by metis
  from rest [unfolded map_eq_append_conv]
  obtain w cs where r: "rest = w @ cs" and w: "map char_lower w = word"
      and cs: "map char_lower cs = post"
    by metis
  have "as = [] \<or> \<not> is_word (last as)"
    using b1 as by (auto simp: last_map is_word_char_lower)
  moreover have "cs = [] \<or> \<not> is_word (hd cs)"
    using b2 cs by (auto simp: hd_map is_word_char_lower)
  ultimately show ?R
    unfolding whole_word_occurrence_def str_lower_def using D r w by blast
next
  assume ?R
  then obtain pre w post where D: "D = pre @ w @ post" and w: "str_lower w = word"
      and b1: "pre = [] \<or> \<not> is_word (last pre)" and b2: "post = [] \<or> \<not> is_word (hd post)"
    unfolding whole_word_occurrence_def by blast
  have "str_lower D = str_lower pre @ word @ str_lower post"
    using D w by (simp add: str_lower_def)
  moreover have "str_lower pre = [] \<or> \<not> is_word (last (str_lower pre))"
    using b1 by (auto simp: str_lower_def last_map is_word_char_lower)
  moreover have "str_lower post = [] \<or> \<not> is_word (hd (str_lower post))"
    using b2 by (auto simp: str_lower_def hd_map is_word_char_lower)
  ultimately show ?L by blast
qed

lemma title_go: "str_title ''go'' = ''Go''"
  by code_simp

lemma found_go:
  "sorted_list_of_set (find_skills [''go''] (str_lower D) {}) =
     (if whole_word_occurrence ''go'' D then [''Go''] else [])"
proof -
  have "re_search (skill_rx ''go'') (str_lower D) \<noteq> None \<longleftrightarrow> whole_word_occurrence ''go'' D"
    unfolding go_search_iff by (rule lower_occurrence_iff)
  then show ?thesis
    by (cases "re_search (skill_rx ''go'') (str_lower D)") (simp_all add: title_go)
qed

text \<open>
  For an entry that begins and ends with a word character the two word boundaries of
  the pattern say: no word character right before the entry and none right after it.
\<close>

lemma edge_skill_search_iff:
  assumes "w \<noteq> []" "is_word (hd w)" "is_word (last w)"
  shows "re_search (skill_rx w) t \<noteq> None \<longleftrightarrow>
     (\<exists>pre post. t = pre @ w @ post \<and>
        (pre = [] \<or> \<not> is_word (last pre)) \<and> (post = [] \<or> \<not> is_word (hd post)))"
proof -
  have b1: "at_boundary (word_before None pre) (w @ post) \<longleftrightarrow> pre = [] \<or> \<not> is_word (last pre)"
    for pre post
    using assms(1,2) by (cases w) (simp_all add: at_boundary_def word_before_def)
  have b2: "at_boundary (word_before p w) post \<longleftrightarrow> post = [] \<or> \<not> is_word (hd post)"
    for p post
    using assms(1,3) by (cases post) (simp_all add: at_boundary_def word_before_def)
  show ?thesis
    unfolding skill_search_iff b1 b2 ..
qed

lemma edge_skill_detected_iff:
  assumes "w \<noteq> []" "is_word (hd w)" "is_word (last w)"
  shows "re_search (skill_rx w) (str_lower D) \<noteq> None \<longleftrightarrow> whole_word_occurrence w D"
  unfolding edge_skill_search_iff [OF assms] by (rule lower_occurrence_iff)

lemma title_in_found_iff:
  assumes vocab: "list_all (\<lambda>s. list_all is_ascii s \<and> str_lower s = s) S" and w: "w \<in> set S"
  shows "str_title w \<in> str_title ` {s \<in> set S. re_search (skill_rx s) lt \<noteq> None}
     \<longleftrightarrow> re_search (skill_rx w) lt \<noteq> None"
proof
  assume "str_title w \<in> str_title ` {s \<in> set S. re_search (skill_rx s) lt \<noteq> None}"
  then obtain s where s: "s \<in> set S" "re_search (skill_rx s) lt \<noteq> None"
      and eq: "str_title w = str_title s"
    by auto
  from vocab s(1) w have "str_lower s = s" "str_lower w = w"
    by (simp_all add: list_all_iff)
  moreover from eq have "str_lower (str_title w) = str_lower (str_title s)" by simp
  ultimately have "w = s" by (simp add: lower_title)
  with s(2) show "re_search (skill_rx w) lt \<noteq> None" by simp
next
  assume "re_search (skill_rx w) lt \<noteq> None"
  with w show "str_title w \<in> str_title ` {s \<in> set S. re_search (skill_rx s) lt \<noteq> None}"
    by blast
qed

text \<open>
  C8, as amended: on ASCII text, with a vocabulary of lowercase ASCII entries (which is
  what \<open>load_skill_set\<close> returns for ASCII lines), the detection of an entry that begins
  and ends with a word character is whole-word and case-insensitive: the title-cased
  entry is in the skills list of \<open>parse_resume\<close>, and in the \<open>skills_required\<close> list of
  \<open>parse_job_description\<close>, exactly when the text holds the entry, in any mix of cases,
  with no word character right before it and none right after it. So for the
  vocabulary entry \<^verbatim>\<open>Go\<close>, loaded as \<^verbatim>\<open>go\<close>: the texts \<^verbatim>\<open>Going\<close> and
  \<^verbatim>\<open>Algorithm\<close> give no skill in either parser, and with \<^verbatim>\<open>go\<close> as the only entry
  both parsers return \<^verbatim>\<open>["Go"]\<close> exactly for the texts that hold such an
  occurrence of \<^verbatim>\<open>go\<close>, and the empty list for all others.
\<close>

theorem whole_word_skill_detection:
  assumes ascii: "list_all is_ascii D"
    and vocab: "list_all (\<lambda>s. list_all is_ascii s \<and> str_lower s = s) S"
    and w: "w \<in> set S" "w \<noteq> []" "is_word (hd w)" "is_word (last w)"
  shows "load_skill_set (Opened [Line ''Go\<newline>'']) = Inr [''go'']
    \<and> skills_required (parse_job_description [''go''] ''Going'') = []
    \<and> skills_required (parse_job_description [''go''] ''Algorithm'') = []
    \<and> (\<exists>r. parse_resume [''go''] ''Going'' = Inr r \<and> skills r = [])
    \<and> (\<exists>r. parse_resume [''go''] ''Algorithm'' = Inr r \<and> skills r = [])
    \<and> skills_required (parse_job_description [''go''] D)
        = (if whole_word_occurrence ''go'' D then [''Go''] else [])
    \<and> (\<exists>r. parse_resume [''go''] D = Inr r
          \<and> skills r = (if whole_word_occurrence ''go'' D then [''Go''] else []))
    \<and> (str_title w \<in> set (skills_required (parse_job_description S D))
          \<longleftrightarrow> whole_word_occurrence w D)
    \<and> (\<exists>r. parse_resume S D = Inr r
          \<and> (str_title w \<in> set (skills r) \<longleftrightarrow> whole_word_occurrence w D))"
proof -
  have 1: "load_skill_set (Opened [Line ''Go\<newline>'']) = Inr [''go'']"
    by code_simp
  have 2: "skills_required (parse_job_description [''go''] ''Going'') = []"
    by code_simp
  have 3: "skills_required (parse_job_description [''go''] ''Algorithm'') = []"
    by code_simp
  have "parse_resume [''go''] ''Going'' =
      Inr \<lparr>name = ''Going'', email = [], phone = [], skills = [], experience = []\<rparr>"
    by code_simp
  then have 4: "\<exists>r. parse_resume [''go''] ''Going'' = Inr r \<and> skills r = []" by simp
  have "parse_resume [''go''] ''Algorithm'' =
      Inr \<lparr>name = ''Algorithm'', email = [], phone = [], skills = [], experience = []\<rparr>"
    by code_simp
  then have 5: "\<exists>r. parse_resume [''go''] ''Algorithm'' = Inr r \<and> skills r = []" by simp
  have 6: "skills_required (parse_job_description [''go''] D)
        = (if whole_word_occurrence ''go'' D then [''Go''] else [])"
    by (simp only: parse_job_description_def Let_def job.simps found_go)
  obtain r where r: "parse_resume [''go''] D = Inr r" using parse_resume_total by blast
  then have "skills r = (if whole_word_occurrence ''go'' D then [''Go''] else [])"
    by (simp only: parse_resume_skills found_go)
  with r have 7: "\<exists>r. parse_resume [''go''] D = Inr r
          \<and> skills r = (if whole_word_occurrence ''go'' D then [''Go''] else [])"
    by blast
  have found: "str_title w \<in> set (sorted_list_of_set (find_skills S (str_lower D) {}))
      \<longleftrightarrow> whole_word_occurrence w D"
    unfolding set_found_skills title_in_found_iff [OF vocab w(1)]
    by (rule edge_skill_detected_iff [OF w(2-4)])
  have 8: "str_title w \<in> set (skills_required (parse_job_description S D))
          \<longleftrightarrow> whole_word_occurrence w D"
    using found by (simp only: parse_job_description_def Let_def job.simps)
  obtain r' where r': "parse_resume S D = Inr r'" using parse_resume_total by blast
  then have "str_title w \<in> set (skills r') \<longleftrightarrow> whole_word_occurrence w D"
    using found by (simp only: parse_resume_skills)
  with r' have 9: "\<exists>r. parse_resume S D = Inr r
          \<and> (str_title w \<in> set (skills r) \<longleftrightarrow> whole_word_occurrence w D)"
    by blast
  from 1 2 3 4 5 6 7 8 9 show ?thesis by blast
qed

theorem whole_word_skill_detection_witness:
  "list_all is_ascii ''I use GO, daily.''
   \<and> list_all (\<lambda>s. list_all is_ascii s \<and> str_lower s = s) [''go'', ''sql'']
   \<and> ''go'' \<in> set [''go'', ''sql''] \<and> ''go'' \<noteq> [] \<and> is_word (hd ''go'') \<and> is_word (last ''go'')
   \<and> whole_word_occurrence ''go'' ''I use GO, daily.''
   \<and> str_title ''go'' = ''Go''
   \<and> str_title ''go'' \<in> set (skills_required (parse_job_description [''go'', ''sql''] ''I use GO, daily.''))
   \<and> (\<exists>r. parse_resume [''go'', ''sql''] ''I use GO, daily.'' = Inr r \<and> str_title ''go'' \<in> set (skills r))
   \<and> skills_required (parse_job_description [''go''] ''I use GO, daily.'') = [''Go'']
   \<and> (\<exists>r. parse_resume [''go''] ''I use GO, daily.'' = Inr r \<and> skills r = [''Go''])"
proof -
  have a: "list_all is_ascii ''I use GO, daily.''"
    by (simp add: is_ascii_def)
  have v: "list_all (\<lambda>s. list_all is_ascii s \<and> str_lower s = s) [''go'', ''sql'']"
    by code_simp
  have m: "''go'' \<in> set [''go'', ''sql'']" and ne: "''go'' \<noteq> []" by simp_all
  have h: "is_word (hd ''go'')" and t: "is_word (last ''go'')" by code_simp+
  have l: "str_lower ''GO'' = ''go''" by code_simp
  have n: "\<not> is_word CHR '' ''" "\<not> is_word CHR '',''" by code_simp+
  have occ: "whole_word_occurrence ''go'' ''I use GO, daily.''"
    unfolding whole_word_occurrence_def
    by (rule exI [of _ "''I use ''"], rule exI [of _ "''GO''"], rule exI [of _ "'', daily.''"])
       (simp add: l n)
  from whole_word_skill_detection [OF a v m ne h t] occ a v m ne h t title_go
  show ?thesis by simp
qed

text \<open>
  C8 as stated fails, since the detection is not whole-word for every vocabulary
  entry. The entry \<^verbatim>\<open>C++\<close> is loaded as \<^verbatim>\<open>c++\<close>. The text \<^verbatim>\<open>c++ developer\<close>
  holds it as a whole word, and neither parser finds it: the \<^verbatim>\<open>\b\<close> after the
  last \<^verbatim>\<open>+\<close> asks for a word character there. The text \<^verbatim>\<open>c++11\<close> does not hold
  it as a whole word, and both parsers find it.
\<close>

lemma lower_cpp11: "str_lower ''c++11'' = ''c++11''"
  by code_simp

lemma cpp11_not_whole_word: "\<not> whole_word_occurrence ''c++'' ''c++11''"
proof -
  have d: "is_word CHR ''1''" by code_simp
  show ?thesis
    unfolding lower_occurrence_iff [symmetric] lower_cpp11
    using d by (auto simp: Cons_eq_append_conv)
qed

theorem whole_word_edge_counterexample:
  "load_skill_set (Opened [Line ''C++\<newline>'']) = Inr [''c++'']
   \<and> whole_word_occurrence ''c++'' ''c++ developer''
   \<and> skills_required (parse_job_description [''c++''] ''c++ developer'') = []
   \<and> (\<exists>r. parse_resume [''c++''] ''c++ developer'' = Inr r \<and> skills r = [])
   \<and> \<not> whole_word_occurrence ''c++'' ''c++11''
   \<and> skills_required (parse_job_description [''c++''] ''c++11'') = [''C++'']
   \<and> (\<exists>r. parse_resume [''c++''] ''c++11'' = Inr r \<and> skills r = [''C++''])"
proof -
  have 1: "load_skill_set (Opened [Line ''C++\<newline>'']) = Inr [''c++'']"
    by code_simp
  have l: "str_lower ''c++'' = ''c++''" by code_simp
  have n: "\<not> is_word CHR '' ''" by code_simp
  have 2: "whole_word_occurrence ''c++'' ''c++ developer''"
    unfolding whole_word_occurrence_def
    by (rule exI [of _ "[]"], rule exI [of _ "''c++''"], rule exI [of _ "'' developer''"])
       (simp add: l n)
  have 3: "skills_required (parse_job_description [''c++''] ''c++ developer'') = []"
    by code_simp
  have "parse_resume [''c++''] ''c++ developer'' =
      Inr \<lparr>name = ''c++ developer'', email = [], phone = [], skills = [], experience = []\<rparr>"
    by code_simp
  then have 4: "\<exists>r. parse_resume [''c++''] ''c++ developer'' = Inr r \<and> skills r = []" by simp
  have 5: "skills_required (parse_job_description [''c++''] ''c++11'') = [''C++'']"
    by code_simp
  have "parse_resume [''c++''] ''c++11'' =
      Inr \<lparr>name = ''c++11'', email = [], phone = [], skills = [''C++''], experience = []\<rparr>"
    by code_simp
  then have 6: "\<exists>r. parse_resume [''c++''] ''c++11'' = Inr r \<and> skills r = [''C++'']" by simp
  from 1 2 3 4 5 6 cpp11_not_whole_word show ?thesis by blast
qed

section \<open>Properties of the matcher\<close>

lemma score_loop_eq:
  "score_loop req idx cands matches =
     matches @ map (\<lambda>(i, c). (i, score_of req c)) (enumerate idx cands)"
  by (induction cands arbitrary: idx matches) simp_all

lemma score_loop_fst: "map fst (score_loop req 0 cands []) = [0..<length cands]"
  by (simp add: score_loop_eq map_idI enumerate_eq_zip split_def comp_def)

lemma set_score_loop:
  "set (score_loop req 0 cands []) = {(i, score_of req (cands ! i)) | i. i < length cands}"
  by (auto simp: score_loop_eq in_set_enumerate_eq image_iff)

lemma mset_sort_reverse: "mset (sort_reverse key xs) = mset xs"
  by (simp add: sort_reverse_def)

lemma set_sort_reverse: "set (sort_reverse key xs) = set xs"
  by (simp add: sort_reverse_def)

lemma in_match_candidates_iff:
  "set (skills_required job) \<noteq> {} \<Longrightarrow>
   (i, s) \<in> set (match_candidates cands job) \<longleftrightarrow>
     i < length cands \<and> s = score_of (set (skills_required job)) (cands ! i)"
  by (auto simp: match_candidates_def set_sort_reverse set_score_loop)

lemma score_of_bounds:
  assumes "finite req" "req \<noteq> {}"
  shows "0 \<le> score_of req c \<and> score_of req c \<le> 1"
proof -
  have "card (req \<inter> set (skills c)) \<le> card req"
    using assms by (simp add: card_mono)
  moreover have "0 < card req" using assms by (simp add: card_gt_0_iff)
  ultimately show ?thesis
    by (simp add: score_of_def Let_def)
qed

lemma score_of_one_iff:
  assumes "finite req" "req \<noteq> {}"
  shows "score_of req c = 1 \<longleftrightarrow> req \<subseteq> set (skills c)"
proof -
  have pos: "0 < card req" using assms by (simp add: card_gt_0_iff)
  have "card (req \<inter> set (skills c)) = card req \<longleftrightarrow> req \<subseteq> set (skills c)"
    using assms by (metis card_subset_eq inf.absorb_iff1 inf_le1)
  moreover have "set (skills c) = {} \<Longrightarrow> \<not> req \<subseteq> set (skills c)"
    using assms by auto
  ultimately show ?thesis
    using pos by (auto simp add: score_of_def Let_def)
qed

lemma score_of_mono:
  assumes "finite req" "set (skills b) \<subseteq> set (skills a)"
  shows "score_of req b \<le> score_of req a"
proof -
  have "card (req \<inter> set (skills b)) \<le> card (req \<inter> set (skills a))"
    using assms by (intro card_mono) auto
  then have "(of_nat (card (req \<inter> set (skills b))) :: rat) / of_nat (card req)
      \<le> of_nat (card (req \<inter> set (skills a))) / of_nat (card req)"
    by (simp add: divide_right_mono)
  then show ?thesis
    using assms by (auto simp add: score_of_def Let_def)
qed

lemma example_required: "set (skills_required example_job) \<noteq> {}"
  by (simp add: example_job_def)

lemma example_ranking:
  "match_candidates example_candidates example_job = [(2, 1), (0, 1 / 2), (3, 1 / 2), (1, 0)]"
  by (simp add: match_candidates_def sort_reverse_def score_of_def
      example_candidates_def example_job_def)

text \<open>
  C2: when the job requires at least one skill, every candidate of the collection gets
  exactly one score from \<open>match_candidates\<close>; the score lies between \<open>0\<close> and \<open>1\<close>, and
  it is \<open>1\<close> if and only if the candidate's skills include all the required skills.
\<close>

theorem match_candidates_score_bounds:
  assumes "set (skills_required job) \<noteq> {}" and "i < length cands"
  shows "\<exists>s. (i, s) \<in> set (match_candidates cands job)
      \<and> (\<forall>t. (i, t) \<in> set (match_candidates cands job) \<longrightarrow> t = s)
      \<and> 0 \<le> s \<and> s \<le> 1
      \<and> (s = 1 \<longleftrightarrow> set (skills_required job) \<subseteq> set (skills (cands ! i)))"
proof -
  let ?s = "score_of (set (skills_required job)) (cands ! i)"
  have "(i, ?s) \<in> set (match_candidates cands job)"
    using assms by (simp add: in_match_candidates_iff)
  moreover have "\<forall>t. (i, t) \<in> set (match_candidates cands job) \<longrightarrow> t = ?s"
    using assms by (simp add: in_match_candidates_iff)
  moreover have "0 \<le> ?s \<and> ?s \<le> 1"
    using assms(1) by (intro score_of_bounds) simp_all
  moreover have "?s = 1 \<longleftrightarrow> set (skills_required job) \<subseteq> set (skills (cands ! i))"
    using assms(1) by (intro score_of_one_iff) simp_all
  ultimately show ?thesis by blast
qed

theorem match_candidates_score_bounds_witness:
  "set (skills_required example_job) \<noteq> {} \<and> 2 < length example_candidates
   \<and> match_candidates example_candidates example_job = [(2, 1), (0, 1 / 2), (3, 1 / 2), (1, 0)]
   \<and> (\<exists>s. (2, s) \<in> set (match_candidates example_candidates example_job)
        \<and> (\<forall>t. (2, t) \<in> set (match_candidates example_candidates example_job) \<longrightarrow> t = s)
        \<and> 0 \<le> s \<and> s \<le> 1
        \<and> (s = 1 \<longleftrightarrow> set (skills_required example_job) \<subseteq> set (skills (example_candidates ! 2))))"
proof -
  have n: "2 < length example_candidates" by (simp add: example_candidates_def)
  from match_candidates_score_bounds [OF example_required n] example_required n example_ranking
  show ?thesis by blast
qed

text \<open>
  C3: when the job's set of required skills is empty, \<open>match_candidates\<close> returns the
  empty list, whatever the candidates are.
\<close>

theorem match_candidates_empty_required:
  "set (skills_required job) = {} \<Longrightarrow> match_candidates candidates job = []"
  by (simp add: match_candidates_def)

theorem match_candidates_empty_required_witness:
  "set (skills_required \<lparr>title = ''Clerk'', skills_required = [], description = ''Clerk''\<rparr>) = {}
   \<and> match_candidates example_candidates
        \<lparr>title = ''Clerk'', skills_required = [], description = ''Clerk''\<rparr> = []"
  using match_candidates_empty_required
    [of "\<lparr>title = ''Clerk'', skills_required = [], description = ''Clerk''\<rparr>" example_candidates]
  by simp

text \<open>
  C4: for a job that requires at least one skill, a candidate whose skills include all
  the skills of another candidate gets a score at least as high as the other's.
\<close>

theorem match_candidates_monotone:
  assumes "set (skills_required job) \<noteq> {}"
    and "(i, sa) \<in> set (match_candidates cands job)"
    and "(j, sb) \<in> set (match_candidates cands job)"
    and "set (skills (cands ! j)) \<subseteq> set (skills (cands ! i))"
  shows "sb \<le> sa"
proof -
  have "sa = score_of (set (skills_required job)) (cands ! i)"
    and "sb = score_of (set (skills_required job)) (cands ! j)"
    using assms(1-3) by (simp_all add: in_match_candidates_iff)
  with assms(4) show ?thesis by (simp add: score_of_mono)
qed

theorem match_candidates_monotone_witness:
  "set (skills_required example_job) \<noteq> {}
   \<and> (2, 1) \<in> set (match_candidates example_candidates example_job)
   \<and> (0, 1 / 2) \<in> set (match_candidates example_candidates example_job)
   \<and> set (skills (example_candidates ! 0)) \<subseteq> set (skills (example_candidates ! 2))
   \<and> (1 / 2 :: rat) \<le> 1"
proof -
  have a: "(2, 1) \<in> set (match_candidates example_candidates example_job)"
    and b: "(0, 1 / 2) \<in> set (match_candidates example_candidates example_job)"
    by (simp_all add: example_ranking)
  have s: "set (skills (example_candidates ! 0)) \<subseteq> set (skills (example_candidates ! 2))"
    by (simp add: example_candidates_def)
  from match_candidates_monotone [OF example_required a b s] example_required a b s
  show ?thesis by blast
qed

subsection \<open>The ranking\<close>

lemma insort_key_tie_order:
  fixes x :: "nat \<times> rat"
  assumes "sorted_wrt (\<lambda>p q. snd p < snd q \<or> (snd p = snd q \<and> fst q < fst p)) ys"
    and "\<forall>y\<in>set ys. fst y < fst x"
  shows "sorted_wrt (\<lambda>p q. snd p < snd q \<or> (snd p = snd q \<and> fst q < fst p)) (insort_key snd x ys)"
  using assms
proof (induction ys)
  case Nil
  then show ?case by simp
next
  case (Cons y ys)
  then show ?case
    by (auto simp: set_insort_key)
qed

lemma sort_key_tie_order:
  fixes xs :: "(nat \<times> rat) list"
  assumes "sorted_wrt (\<lambda>p q. fst q < fst p) xs"
  shows "sorted_wrt (\<lambda>p q. snd p < snd q \<or> (snd p = snd q \<and> fst q < fst p)) (sort_key snd xs)"
  using assms
proof (induction xs)
  case Nil
  then show ?case by simp
next
  case (Cons x xs)
  then show ?case
    by (auto intro!: insort_key_tie_order)
qed

lemma sort_reverse_tie_order:
  fixes xs :: "(nat \<times> rat) list"
  assumes "sorted_wrt (\<lambda>p q. fst p < fst q) xs"
  shows "sorted_wrt (\<lambda>p q. snd q < snd p \<or> (snd p = snd q \<and> fst p < fst q)) (sort_reverse snd xs)"
proof -
  have "sorted_wrt (\<lambda>p q. fst q < fst p) (rev xs)"
    using assms by (simp add: sorted_wrt_rev)
  then have "sorted_wrt (\<lambda>p q. snd p < snd q \<or> (snd p = snd q \<and> fst q < fst p)) (sort_key snd (rev xs))"
    by (rule sort_key_tie_order)
  then show ?thesis
    unfolding sort_reverse_def sorted_wrt_rev
    by (rule sorted_wrt_mono_rel[rotated]) auto
qed

lemma score_loop_indices_increasing:
  "sorted_wrt (\<lambda>p q. fst p < fst q) (score_loop req 0 cands [])"
proof -
  have "sorted_wrt (<) (map fst (score_loop req 0 cands []))"
    by (simp add: score_loop_fst)
  then show ?thesis by (simp add: sorted_wrt_map)
qed

text \<open>
  C5: when the job requires at least one skill, of any two pairs of the returned list
  the earlier one has the higher score, or the two scores are equal and the earlier one
  has the smaller candidate index: the list is in descending order of score, and
  candidates with equal scores keep the order in which they stand in the collection.
\<close>

theorem match_candidates_ranking:
  "set (skills_required job) \<noteq> {} \<Longrightarrow>
   sorted_wrt (\<lambda>p q. snd q < snd p \<or> (snd p = snd q \<and> fst p < fst q))
     (match_candidates cands job)"
  by (simp add: match_candidates_def sort_reverse_tie_order score_loop_indices_increasing)

theorem match_candidates_ranking_witness:
  "set (skills_required example_job) \<noteq> {}
   \<and> match_candidates example_candidates example_job = [(2, 1), (0, 1 / 2), (3, 1 / 2), (1, 0)]
   \<and> sorted_wrt (\<lambda>p q. snd q < snd p \<or> (snd p = snd q \<and> fst p < fst q))
        (match_candidates example_candidates example_job)"
  using match_candidates_ranking [OF example_required, of example_candidates]
    example_required example_ranking
  by blast

text \<open>
  C10: when the job requires at least one skill, \<open>match_candidates\<close> returns as many
  pairs as there are candidates, and the candidate indices of the pairs are the numbers
  \<open>0\<close> to \<open>n - 1\<close>, each exactly once: no candidate is dropped, whatever its score.
\<close>

theorem match_candidates_permutation:
  "set (skills_required job) \<noteq> {} \<Longrightarrow>
   length (match_candidates cands job) = length cands \<and>
   mset (map fst (match_candidates cands job)) = mset [0..<length cands]"
proof -
  assume "set (skills_required job) \<noteq> {}"
  then have r: "match_candidates cands job
      = sort_reverse snd (score_loop (set (skills_required job)) 0 cands [])"
    by (simp add: match_candidates_def)
  have "mset (map fst (match_candidates cands job))
      = mset (map fst (score_loop (set (skills_required job)) 0 cands []))"
    unfolding r by (simp add: mset_sort_reverse)
  then have m: "mset (map fst (match_candidates cands job)) = mset [0..<length cands]"
    by (simp only: score_loop_fst)
  from m have "size (mset (map fst (match_candidates cands job))) = size (mset [0..<length cands])"
    by simp
  then have "length (match_candidates cands job) = length cands" by simp
  with m show ?thesis by simp
qed

theorem match_candidates_permutation_witness:
  "set (skills_required example_job) \<noteq> {}
   \<and> map fst (match_candidates example_candidates example_job) = [2, 0, 3, 1]
   \<and> length (match_candidates example_candidates example_job) = length example_candidates
   \<and> mset (map fst (match_candidates example_candidates example_job))
       = mset [0..<length example_candidates]"
proof -
  have "map fst (match_candidates example_candidates example_job) = [2, 0, 3, 1]"
    by (simp add: example_ranking)
  with match_candidates_permutation [OF example_required, of example_candidates] example_required
  show ?thesis by blast
qed

end
